theory Spec2Isabelle
  imports Main "HOL-Library.Word"
begin

unbundle bit_operations_syntax

section \<open>simplecrypt: password-based authenticated encryption\<close>

text \<open>
  A shallow embedding of \<^verbatim>\<open>src/simplecrypt/__init__.py\<close>. A Python \<^verbatim>\<open>bytes\<close> value is a
  list of 8-bit words, and a Python \<^verbatim>\<open>str\<close> is the list of its code points. The
  module-private helpers keep their names without the leading underscore
  (\<^verbatim>\<open>_expand_key\<close> is \<open>expand_key\<close>, and so on), which an Isabelle name cannot start
  with.
\<close>

type_synonym byte = "8 word"
type_synonym bytes = "byte list"

subsection \<open>Module constants (lines 11 to 19)\<close>

definition EXPANSION_COUNT :: nat where
  "EXPANSION_COUNT = 1000"

definition AES_KEY_LEN :: nat where
  "AES_KEY_LEN = 256"

definition SALT_LEN :: nat where
  "SALT_LEN = 128"

text \<open>\<^verbatim>\<open>PREFIX = b'sc\x00\x00'\<close>: the letters s and c, then two zero bytes.\<close>

definition PREFIX :: bytes where
  "PREFIX = [0x73, 0x63, 0x00, 0x00]"

text \<open>
  Two constants of the cryptographic library that the module reads:
  \<^verbatim>\<open>AES.block_size\<close> (16 bytes) and \<^verbatim>\<open>SHA256.digest_size\<close> (32 bytes), the latter
  through \<^verbatim>\<open>HASH = SHA256\<close>.
\<close>

definition AES_block_size :: nat where
  "AES_block_size = 16"

definition HASH_digest_size :: nat where
  "HASH_digest_size = 32"

text \<open>\<^verbatim>\<open>HALF_BLOCK = AES.block_size*8//2\<close>, a length in bits.\<close>

definition HALF_BLOCK :: nat where
  "HALF_BLOCK = AES_block_size * 8 div 2"

subsection \<open>Exceptions as values\<close>

text \<open>
  The module raises its own \<^verbatim>\<open>DecryptionException\<close> and \<^verbatim>\<open>EncryptionException\<close> and the
  built-in \<^verbatim>\<open>ValueError\<close>, each with a message. Two built-ins that it calls raise as
  well: \<^verbatim>\<open>str.encode\<close> raises \<^verbatim>\<open>UnicodeEncodeError\<close> (kept with its reason) and \<^verbatim>\<open>len\<close>
  raises \<^verbatim>\<open>OverflowError\<close>. A raise is the left injection of a sum.
\<close>

datatype error =
    DecryptionException string
  | EncryptionException string
  | ValueError string
  | UnicodeEncodeError string
  | OverflowError

subsection \<open>Two built-ins: \<^verbatim>\<open>len\<close> and \<^verbatim>\<open>str.encode\<close>\<close>

text \<open>
  \<^verbatim>\<open>len(x)\<close> returns at most \<^verbatim>\<open>sys.maxsize\<close>, which is \<open>2 ^ 63 - 1\<close> on a 64-bit build.
  No \<^verbatim>\<open>bytes\<close> object is longer, and \<^verbatim>\<open>len\<close> of an object that reports a greater length
  raises \<^verbatim>\<open>OverflowError\<close>. A list of more than \<open>sys_maxsize\<close> elements therefore stands
  for no \<^verbatim>\<open>bytes\<close> value, only for such an object. \<open>py_len\<close> is \<^verbatim>\<open>len\<close> where the module
  measures the plaintext against its upper bound; \<open>decrypt\<close> compares the length of the
  envelope with a lower bound only, and keeps \<open>length\<close>.
\<close>

definition sys_maxsize :: nat where
  "sys_maxsize = 2 ^ 63 - 1"

definition py_len :: "'a list \<Rightarrow> error + nat" where
  "py_len xs = (if length xs \<le> sys_maxsize then Inr (length xs) else Inl OverflowError)"

text \<open>
  \<^verbatim>\<open>password.encode('utf8')\<close>: one to four bytes for each code point, in order, and
  \<^verbatim>\<open>UnicodeEncodeError\<close> at the first surrogate (\<^verbatim>\<open>U+D800\<close> to \<^verbatim>\<open>U+DFFF\<close>), which a
  \<^verbatim>\<open>str\<close> can hold on its own. A \<^verbatim>\<open>str\<close> holds code points below \<^verbatim>\<open>0x110000\<close> only.
\<close>

definition utf8_char :: "nat \<Rightarrow> error + bytes" where
  "utf8_char c =
     (if c < 0x80 then Inr [of_nat c]
      else if c < 0x800 then Inr [of_nat (0xC0 + c div 64), of_nat (0x80 + c mod 64)]
      else if 0xD800 \<le> c \<and> c < 0xE000
        then Inl (UnicodeEncodeError ''surrogates not allowed'')
      else if c < 0x10000
        then Inr [of_nat (0xE0 + c div 4096), of_nat (0x80 + c div 64 mod 64),
                  of_nat (0x80 + c mod 64)]
      else Inr [of_nat (0xF0 + c div 262144), of_nat (0x80 + c div 4096 mod 64),
                of_nat (0x80 + c div 64 mod 64), of_nat (0x80 + c mod 64)])"

fun encode_utf8 :: "nat list \<Rightarrow> error + bytes" where
  "encode_utf8 [] = Inr []"
| "encode_utf8 (c # cs) =
     (case utf8_char c of
        Inl e \<Rightarrow> Inl e
      | Inr bs \<Rightarrow> (case encode_utf8 cs of Inl e \<Rightarrow> Inl e | Inr rest \<Rightarrow> Inr (bs @ rest)))"

subsection \<open>The cryptographic library\<close>

text \<open>
  The primitives the module imports from the \<^verbatim>\<open>Crypto\<close> package are not part of the
  repository. They are parameters of the model, collected in one record:
  \<^item> \<open>getrandbits8\<close> is \<^verbatim>\<open>getrandbits(8)\<close>: it reads the state \<open>'g\<close> of the random source
    and returns one 8-bit value and the next state;
  \<^item> \<open>PBKDF2\<close> takes the password, the salt, \<^verbatim>\<open>dkLen\<close>, \<^verbatim>\<open>count\<close> and the
    pseudorandom function \<^verbatim>\<open>prf\<close>;
  \<^item> \<open>HMAC_digest k m\<close> is \<^verbatim>\<open>HMAC.new(k, m, HASH).digest()\<close>;
  \<^item> \<open>HASH_digest d\<close> is \<^verbatim>\<open>HASH.new(data=d).digest()\<close>;
  \<^item> \<open>AES_block k b\<close> is the AES encryption of the single block \<open>b\<close> under key \<open>k\<close>.
\<close>

record 'g pycrypto =
  getrandbits8 :: "'g \<Rightarrow> byte \<times> 'g"
  PBKDF2 :: "bytes \<Rightarrow> bytes \<Rightarrow> nat \<Rightarrow> nat \<Rightarrow> (bytes \<Rightarrow> bytes \<Rightarrow> bytes) \<Rightarrow> bytes"
  HMAC_digest :: "bytes \<Rightarrow> bytes \<Rightarrow> bytes"
  HASH_digest :: "bytes \<Rightarrow> bytes"
  AES_block :: "bytes \<Rightarrow> bytes \<Rightarrow> bytes"

text \<open>
  What the theorems below need of the primitives is their output sizes only: an HMAC
  digest has \<^verbatim>\<open>digest_size\<close> bytes and an encrypted block has \<^verbatim>\<open>block_size\<close> bytes.
\<close>

definition pycrypto_sizes :: "'g pycrypto \<Rightarrow> bool" where
  "pycrypto_sizes L \<longleftrightarrow>
     (\<forall>k m. length (HMAC_digest L k m) = HASH_digest_size) \<and>
     (\<forall>k b. length (AES_block L k b) = AES_block_size)"

subsection \<open>Counter mode\<close>

text \<open>
  \<^verbatim>\<open>Counter.new(nbits, prefix=...)\<close> builds a counter whose blocks are the fixed prefix
  followed by an \<open>nbits\<close>-bit big-endian integer. Neither call site passes
  \<^verbatim>\<open>initial_value\<close>, so the library's default applies, which is 1
  (\<^verbatim>\<open>Counter.new(nbits, prefix=b"", suffix=b"", initial_value=1, ...)\<close>). The library
  raises when a counter would wrap around; lemma \<open>counter_in_range\<close> below shows that no
  plaintext that \<open>encrypt\<close> accepts gets there, so the model has no branch for it.
\<close>

record Counter =
  ctr_nbits :: nat
  ctr_prefix :: bytes
  ctr_initial_value :: nat

definition Counter_new :: "nat \<Rightarrow> bytes \<Rightarrow> Counter" where
  "Counter_new nb pre = \<lparr>ctr_nbits = nb, ctr_prefix = pre, ctr_initial_value = 1\<rparr>"

text \<open>The \<open>n\<close>-byte big-endian encoding of \<open>v\<close> (its low \<open>8 * n\<close> bits).\<close>

definition be_bytes :: "nat \<Rightarrow> nat \<Rightarrow> bytes" where
  "be_bytes n v = rev (map (\<lambda>i. of_nat (v div 256 ^ i)) [0..<n])"

text \<open>The counter block of the \<open>i\<close>-th block of a message, counting from 0.\<close>

definition counter_block :: "Counter \<Rightarrow> nat \<Rightarrow> bytes" where
  "counter_block c i = ctr_prefix c @ be_bytes (ctr_nbits c div 8) (ctr_initial_value c + i)"

text \<open>\<^verbatim>\<open>AES.new(key, AES.MODE_CTR, counter=counter)\<close>: a cipher object in counter mode.\<close>

record CTR_cipher =
  cipher_key :: bytes
  cipher_counter :: Counter

definition AES_new_CTR :: "bytes \<Rightarrow> Counter \<Rightarrow> CTR_cipher" where
  "AES_new_CTR key counter = \<lparr>cipher_key = key, cipher_counter = counter\<rparr>"

text \<open>The first \<open>n\<close> blocks of keystream: the encryptions of the successive counter blocks.\<close>

definition keystream :: "'g pycrypto \<Rightarrow> CTR_cipher \<Rightarrow> nat \<Rightarrow> bytes" where
  "keystream L cipher n =
     concat (map (\<lambda>i. AES_block L (cipher_key cipher) (counter_block (cipher_counter cipher) i)) [0..<n])"

definition xor_bytes :: "bytes \<Rightarrow> bytes \<Rightarrow> bytes" where
  "xor_bytes xs ks = map (\<lambda>(x, k). x XOR k) (zip xs ks)"

text \<open>The number of blocks that cover \<open>n\<close> bytes.\<close>

definition blocks_for :: "nat \<Rightarrow> nat" where
  "blocks_for n = (n + AES_block_size - 1) div AES_block_size"

text \<open>
  \<^verbatim>\<open>cipher.encrypt(data)\<close> and \<^verbatim>\<open>cipher.decrypt(data)\<close> on a fresh counter-mode cipher: both
  xor the data with the keystream. Each cipher object of the module is used once.
\<close>

definition cipher_encrypt :: "'g pycrypto \<Rightarrow> CTR_cipher \<Rightarrow> bytes \<Rightarrow> bytes" where
  "cipher_encrypt L cipher data = xor_bytes data (keystream L cipher (blocks_for (length data)))"

definition cipher_decrypt :: "'g pycrypto \<Rightarrow> CTR_cipher \<Rightarrow> bytes \<Rightarrow> bytes" where
  "cipher_decrypt L cipher data = xor_bytes data (keystream L cipher (blocks_for (length data)))"

subsection \<open>The helpers (lines 73 to 101)\<close>

definition assert_encrypt_length :: "bytes \<Rightarrow> error + unit" where
  "assert_encrypt_length data =
     (case py_len data of
        Inl e \<Rightarrow> Inl e
      | Inr n \<Rightarrow>
          if n > 2 ^ HALF_BLOCK then Inl (EncryptionException ''Message too long'')
          else Inr ())"

definition assert_decrypt_length :: "bytes \<Rightarrow> error + unit" where
  "assert_decrypt_length data =
     (if length data < length PREFIX + SALT_LEN div 8 + HASH_digest_size
      then Inl (DecryptionException ''Missing data'')
      else Inr ())"

definition assert_prefix :: "bytes \<Rightarrow> error + unit" where
  "assert_prefix data =
     (if take (length PREFIX) data \<noteq> PREFIX then Inl (DecryptionException ''Bad data format'')
      else Inr ())"

definition hash :: "'g pycrypto \<Rightarrow> bytes \<Rightarrow> bytes" where
  "hash L data = HASH_digest L data"

definition assert_hmac :: "'g pycrypto \<Rightarrow> bytes \<Rightarrow> bytes \<Rightarrow> error + unit" where
  "assert_hmac L hmac hmac2 =
     (if hash L hmac \<noteq> hash L hmac2
      then Inl (DecryptionException ''Bad password or corrupt / modified data'')
      else Inr ())"

definition expand_key :: "'g pycrypto \<Rightarrow> bytes \<Rightarrow> nat list \<Rightarrow> error + bytes" where
  "expand_key L salt password =
     (if salt = [] then Inl (ValueError ''Missing salt'')
      else if password = [] then Inl (ValueError ''Missing password'')
      else (case encode_utf8 password of
              Inl e \<Rightarrow> Inl e
            | Inr pw \<Rightarrow>
                Inr (PBKDF2 L pw salt (AES_KEY_LEN div 8) EXPANSION_COUNT
                       (\<lambda>p s. HMAC_digest L p s))))"

text \<open>\<^verbatim>\<open>bytes(getrandbits(8) for _ in range(n))\<close>: \<open>n\<close> draws, in order.\<close>

fun randbytes :: "'g pycrypto \<Rightarrow> nat \<Rightarrow> 'g \<Rightarrow> bytes \<times> 'g" where
  "randbytes L 0 g = ([], g)"
| "randbytes L (Suc n) g =
     (case getrandbits8 L g of (b, g1) \<Rightarrow>
        (case randbytes L n g1 of (bs, g2) \<Rightarrow> (b # bs, g2)))"

subsection \<open>encrypt and decrypt (lines 23 to 66)\<close>

text \<open>
  \<open>encrypt\<close> takes the state of the random source and returns it with its result, so
  that what a call consumed can be read off. A Python slice \<^verbatim>\<open>x[:n]\<close> is \<open>take n x\<close>,
  \<^verbatim>\<open>x[n:]\<close> is \<open>drop n x\<close>, and for \<open>n > 0\<close> the slices \<^verbatim>\<open>x[:-n]\<close> and \<^verbatim>\<open>x[-n:]\<close> are
  \<open>take (length x - n) x\<close> and \<open>drop (length x - n) x\<close>: the subtraction on \<open>nat\<close> stops
  at 0, as the slice bounds of Python do.
\<close>

definition encrypt ::
    "'g pycrypto \<Rightarrow> 'g \<Rightarrow> nat list \<Rightarrow> bytes \<Rightarrow> (error + bytes) \<times> 'g" where
  "encrypt L g password data =
     (case assert_encrypt_length data of
        Inl e \<Rightarrow> (Inl e, g)
      | Inr _ \<Rightarrow>
         (case randbytes L (SALT_LEN div 8) g of (salt, g') \<Rightarrow>
            (case expand_key L salt password of
               Inl e \<Rightarrow> (Inl e, g')
             | Inr key \<Rightarrow>
                 let counter = Counter_new HALF_BLOCK (take (HALF_BLOCK div 8) salt);
                     cipher = AES_new_CTR key counter;
                     encrypted = cipher_encrypt L cipher data;
                     hmac = HMAC_digest L key (PREFIX @ salt @ encrypted)
                 in (Inr (PREFIX @ salt @ encrypted @ hmac), g'))))"

definition decrypt :: "'g pycrypto \<Rightarrow> nat list \<Rightarrow> bytes \<Rightarrow> error + bytes" where
  "decrypt L password data =
     (case assert_decrypt_length data of
        Inl e \<Rightarrow> Inl e
      | Inr _ \<Rightarrow>
         (case assert_prefix data of
            Inl e \<Rightarrow> Inl e
          | Inr _ \<Rightarrow>
             let raw = drop (length PREFIX) data;
                 salt = take (SALT_LEN div 8) raw
             in (case expand_key L salt password of
                   Inl e \<Rightarrow> Inl e
                 | Inr key \<Rightarrow>
                     let hmac = drop (length raw - HASH_digest_size) raw;
                         hmac2 = HMAC_digest L key (take (length data - HASH_digest_size) data)
                     in (case assert_hmac L hmac hmac2 of
                           Inl e \<Rightarrow> Inl e
                         | Inr _ \<Rightarrow>
                             let counter = Counter_new HALF_BLOCK (take (HALF_BLOCK div 8) salt);
                                 cipher = AES_new_CTR key counter
                             in Inr (cipher_decrypt L cipher
                                       (drop (SALT_LEN div 8)
                                          (take (length raw - HASH_digest_size) raw)))))))"

subsection \<open>A small instance of the library\<close>

text \<open>
  Concrete stand-ins for the primitives, with the right output sizes, on which the
  definitions can be evaluated: the random source counts upwards, the block function
  adds the key to the block, and the digests are their padded input, cut to size.
  \<open>code_points\<close> gives the \<^verbatim>\<open>str\<close> of a literal.
\<close>

definition code_points :: "string \<Rightarrow> nat list" where
  "code_points s = map of_char s"

definition pad_to :: "nat \<Rightarrow> bytes \<Rightarrow> bytes" where
  "pad_to n xs = take n (xs @ replicate n 0)"

definition demo_lib :: "nat pycrypto" where
  "demo_lib =
     \<lparr>getrandbits8 = (\<lambda>g. (of_nat (7 * g + 3), Suc g)),
      PBKDF2 = (\<lambda>p s dkLen count prf. pad_to dkLen (prf p s)),
      HMAC_digest = (\<lambda>k m. pad_to HASH_digest_size (map (\<lambda>(x, y). x + y) (zip (pad_to HASH_digest_size m) (pad_to HASH_digest_size k)))),
      HASH_digest = (\<lambda>d. pad_to HASH_digest_size d),
      AES_block = (\<lambda>k b. map (\<lambda>(x, y). x + y) (zip (pad_to AES_block_size b) (pad_to AES_block_size k)))\<rparr>"

text \<open>
  The same instance with a block function that returns the block it is given, so that
  the ciphertext of an all-zero plaintext shows the counter blocks themselves.
\<close>

definition probe_lib :: "nat pycrypto" where
  "probe_lib = demo_lib\<lparr>AES_block := (\<lambda>k b. pad_to AES_block_size b)\<rparr>"

text \<open>
  The plaintext \<^verbatim>\<open>b"hello world"\<close> of the specification's first scenario, and the envelope
  that \<open>encrypt\<close> makes of it with the instance above.
\<close>

definition hello_world :: bytes where
  "hello_world = [0x68, 0x65, 0x6c, 0x6c, 0x6f, 0x20, 0x77, 0x6f, 0x72, 0x6c, 0x64]"

definition demo_envelope :: bytes where
  "demo_envelope =
     [115, 99, 0, 0,
      3, 10, 17, 24, 31, 38, 45, 52, 59, 66, 73, 80, 87, 94, 101, 108,
      1, 230, 248, 206, 204, 143, 185, 231, 209, 221, 223,
      217, 220, 131, 138, 135, 147, 178, 108, 194, 215, 232, 247, 247, 192, 16, 29, 203,
      210, 202, 222, 122, 6, 107, 66, 45, 255, 37, 76, 209, 221, 223, 0]"

text \<open>The envelope of the empty plaintext under the password \<^verbatim>\<open>"pw"\<close>.\<close>

definition demo_envelope_empty :: bytes where
  "demo_envelope_empty =
     [115, 99, 0, 0,
      3, 10, 17, 24, 31, 38, 45, 52, 59, 66, 73, 80, 87, 94, 101, 108,
      230, 228, 17, 24, 34, 48, 62, 76, 90, 104, 118, 132, 146, 160, 174, 188,
      87, 94, 101, 108, 0, 0, 0, 0, 0, 0, 0, 0, 0, 0, 0, 0]"

section \<open>Properties\<close>

lemma HALF_BLOCK_64: "HALF_BLOCK = 64"
  by (simp add: HALF_BLOCK_def AES_block_size_def)

lemma length_randbytes: "randbytes L n g = (bs, g') \<Longrightarrow> length bs = n"
proof (induction n arbitrary: g bs g')
  case 0
  then show ?case by simp
next
  case (Suc n)
  obtain b g1 where b: "getrandbits8 L g = (b, g1)" by (cases "getrandbits8 L g")
  obtain cs g2 where cs: "randbytes L n g1 = (cs, g2)" by (cases "randbytes L n g1")
  from Suc.prems b cs have "bs = b # cs" by simp
  moreover from Suc.IH [OF cs] have "length cs = n" .
  ultimately show ?case by simp
qed

lemma length_keystream:
  assumes "pycrypto_sizes L"
  shows "length (keystream L c n) = AES_block_size * n"
  using assms by (induction n) (simp_all add: keystream_def pycrypto_sizes_def)

lemma length_xor_bytes: "length (xor_bytes xs ks) = min (length xs) (length ks)"
  by (simp add: xor_bytes_def)

lemma xor_bytes_twice: "length xs \<le> length ks \<Longrightarrow> xor_bytes (xor_bytes xs ks) ks = xs"
proof (induction xs arbitrary: ks)
  case Nil
  then show ?case by (simp add: xor_bytes_def)
next
  case (Cons x xs)
  then obtain k ks' where ks: "ks = k # ks'" by (cases ks) auto
  with Cons.prems have "length xs \<le> length ks'" by simp
  from Cons.IH [OF this] have "xor_bytes (xor_bytes xs ks') ks' = xs" .
  then show ?case by (simp add: ks xor_bytes_def xor.assoc)
qed

lemma blocks_for_covers: "n \<le> AES_block_size * blocks_for n"
  by (simp add: blocks_for_def AES_block_size_def)

lemma counter_in_range:
  assumes "length data \<le> 2 ^ HALF_BLOCK" and "i < blocks_for (length data)"
  shows "ctr_initial_value (Counter_new HALF_BLOCK p) + i < 2 ^ HALF_BLOCK"
proof -
  from assms(1) have "blocks_for (length data) \<le> (2 ^ 64 + 15) div 16"
    unfolding blocks_for_def HALF_BLOCK_64 AES_block_size_def
    by (intro div_le_mono) simp
  with assms(2) show ?thesis
    by (simp add: Counter_new_def HALF_BLOCK_64)
qed

lemma keystream_covers:
  assumes "pycrypto_sizes L"
  shows "length data \<le> length (keystream L c (blocks_for (length data)))"
  using blocks_for_covers [of "length data"] by (simp add: length_keystream [OF assms])

lemma length_cipher_encrypt:
  assumes "pycrypto_sizes L"
  shows "length (cipher_encrypt L c data) = length data"
  using keystream_covers [OF assms, of data c]
  by (simp add: cipher_encrypt_def length_xor_bytes)

lemma cipher_decrypt_encrypt:
  assumes "pycrypto_sizes L"
  shows "cipher_decrypt L c (cipher_encrypt L c data) = data"
proof -
  have "cipher_decrypt L c (cipher_encrypt L c data) =
        xor_bytes (xor_bytes data (keystream L c (blocks_for (length data))))
          (keystream L c (blocks_for (length data)))"
    by (simp add: cipher_decrypt_def length_cipher_encrypt [OF assms])
       (simp add: cipher_encrypt_def)
  also have "\<dots> = data"
    by (rule xor_bytes_twice) (rule keystream_covers [OF assms])
  finally show ?thesis .
qed

lemma length_PREFIX: "length PREFIX = 4"
  by (simp add: PREFIX_def)

lemma min_envelope: "length PREFIX + SALT_LEN div 8 + HASH_digest_size = 52"
  by (simp add: PREFIX_def SALT_LEN_def HASH_digest_size_def)

lemma sys_maxsize_below_bound: "sys_maxsize < 2 ^ HALF_BLOCK"
  by (simp add: sys_maxsize_def HALF_BLOCK_64)

lemma assert_encrypt_length_Inr:
  "length data \<le> sys_maxsize \<Longrightarrow> assert_encrypt_length data = Inr ()"
  using sys_maxsize_below_bound by (simp add: assert_encrypt_length_def py_len_def)

lemma assert_encrypt_length_Inl:
  "sys_maxsize < length data \<Longrightarrow> assert_encrypt_length data = Inl OverflowError"
  by (simp add: assert_encrypt_length_def py_len_def)

lemma utf8_char_Inl:
  "utf8_char c = Inl e \<longleftrightarrow>
     0xD800 \<le> c \<and> c < 0xE000 \<and> e = UnicodeEncodeError ''surrogates not allowed''"
  by (auto simp: utf8_char_def)

lemma encode_utf8_examples:
  "encode_utf8 [0x70, 0xE9, 0x20AC, 0x1F600] =
     Inr [0x70, 0xC3, 0xA9, 0xE2, 0x82, 0xAC, 0xF0, 0x9F, 0x98, 0x80]"
  "encode_utf8 [0x70, 0xDC00, 0x71] = Inl (UnicodeEncodeError ''surrogates not allowed'')"
  by (simp_all add: utf8_char_def)

lemma encode_utf8_Inl:
  "encode_utf8 p = Inl e \<Longrightarrow> e = UnicodeEncodeError ''surrogates not allowed''"
  by (induction p) (auto simp: utf8_char_Inl split: sum.splits)

lemma encode_utf8_Inr:
  "(\<exists>bs. encode_utf8 p = Inr bs) \<longleftrightarrow> (\<forall>c \<in> set p. c < 0xD800 \<or> 0xE000 \<le> c)"
proof (induction p)
  case Nil
  then show ?case by simp
next
  case (Cons c p)
  show ?case
  proof (cases "utf8_char c")
    case (Inl e)
    then have "0xD800 \<le> c \<and> c < 0xE000" by (simp add: utf8_char_Inl)
    with Inl show ?thesis by auto
  next
    case (Inr bs)
    then have "\<not> (0xD800 \<le> c \<and> c < 0xE000)"
      by (auto simp: utf8_char_def split: if_splits)
    with Inr Cons.IH show ?thesis
      by (cases "encode_utf8 p") (auto simp: not_le not_less)
  qed
qed

lemma expand_key_Inl:
  "expand_key L salt password = Inl e \<Longrightarrow>
     (\<exists>msg. e = ValueError msg) \<or> (\<exists>msg. e = UnicodeEncodeError msg)"
  by (auto simp: expand_key_def split: if_splits sum.splits dest: encode_utf8_Inl)

lemma encrypt_overflow:
  "sys_maxsize < length data \<Longrightarrow> encrypt L g password data = (Inl OverflowError, g)"
  by (simp add: encrypt_def assert_encrypt_length_Inl)

lemma encrypt_cases:
  assumes "length data \<le> sys_maxsize"
      and "randbytes L (SALT_LEN div 8) g = (salt, g')"
  shows "encrypt L g password data =
     (case expand_key L salt password of
        Inl e \<Rightarrow> (Inl e, g')
      | Inr key \<Rightarrow>
          (Inr (PREFIX @ salt @
                cipher_encrypt L (AES_new_CTR key (Counter_new HALF_BLOCK (take (HALF_BLOCK div 8) salt))) data @
                HMAC_digest L key (PREFIX @ salt @
                  cipher_encrypt L (AES_new_CTR key (Counter_new HALF_BLOCK (take (HALF_BLOCK div 8) salt))) data)),
           g'))"
  using assms by (simp add: encrypt_def assert_encrypt_length_Inr Let_def split: sum.splits)

lemma decrypt_short:
  "length data < length PREFIX + SALT_LEN div 8 + HASH_digest_size \<Longrightarrow>
   decrypt L password data = Inl (DecryptionException ''Missing data'')"
  by (simp add: decrypt_def assert_decrypt_length_def)

lemma decrypt_bad_prefix:
  "length PREFIX + SALT_LEN div 8 + HASH_digest_size \<le> length data \<Longrightarrow>
   take (length PREFIX) data \<noteq> PREFIX \<Longrightarrow>
   decrypt L password data = Inl (DecryptionException ''Bad data format'')"
  by (simp add: decrypt_def assert_decrypt_length_def assert_prefix_def)

lemma decrypt_cases:
  assumes "length PREFIX + SALT_LEN div 8 + HASH_digest_size \<le> length data"
      and "take (length PREFIX) data = PREFIX"
  shows "decrypt L password data =
     (case expand_key L (take (SALT_LEN div 8) (drop (length PREFIX) data)) password of
        Inl e \<Rightarrow> Inl e
      | Inr key \<Rightarrow>
          if hash L (drop (length data - HASH_digest_size) data) =
             hash L (HMAC_digest L key (take (length data - HASH_digest_size) data))
          then Inr (cipher_decrypt L
                 (AES_new_CTR key (Counter_new HALF_BLOCK
                    (take (HALF_BLOCK div 8) (take (SALT_LEN div 8) (drop (length PREFIX) data)))))
                 (drop (length PREFIX + SALT_LEN div 8) (take (length data - HASH_digest_size) data)))
          else Inl (DecryptionException ''Bad password or corrupt / modified data''))"
proof -
  have n: "52 \<le> length data" using assms(1) by (simp add: min_envelope)
  have tag: "drop (length (drop (length PREFIX) data) - HASH_digest_size) (drop (length PREFIX) data) =
             drop (length data - HASH_digest_size) data"
    using n by (simp add: length_PREFIX HASH_digest_size_def)
  have ct: "drop (SALT_LEN div 8) (take (length (drop (length PREFIX) data) - HASH_digest_size) (drop (length PREFIX) data)) =
            drop (length PREFIX + SALT_LEN div 8) (take (length data - HASH_digest_size) data)"
    using n by (simp add: length_PREFIX HASH_digest_size_def SALT_LEN_def drop_take add.commute)
  show ?thesis
    unfolding decrypt_def Let_def tag ct
    using assms
    by (simp add: assert_decrypt_length_def assert_prefix_def assert_hmac_def split: sum.splits)
qed

lemma length_pad_to: "length (pad_to n xs) = n"
  by (simp add: pad_to_def)

lemma demo_lib_sizes: "pycrypto_sizes demo_lib"
  by (simp add: pycrypto_sizes_def demo_lib_def length_pad_to AES_block_size_def)

lemma salt_nonempty: "randbytes L (SALT_LEN div 8) g = (salt, g') \<Longrightarrow> salt \<noteq> []"
  by (drule length_randbytes) (auto simp: SALT_LEN_def)


lemma envelope_parts:
  assumes "length salt = SALT_LEN div 8" and "length tag = HASH_digest_size"
  shows "length PREFIX + SALT_LEN div 8 + HASH_digest_size \<le> length (PREFIX @ salt @ ct @ tag)"
    and "take (length PREFIX) (PREFIX @ salt @ ct @ tag) = PREFIX"
    and "take (SALT_LEN div 8) (drop (length PREFIX) (PREFIX @ salt @ ct @ tag)) = salt"
    and "drop (length (PREFIX @ salt @ ct @ tag) - HASH_digest_size) (PREFIX @ salt @ ct @ tag) = tag"
    and "take (length (PREFIX @ salt @ ct @ tag) - HASH_digest_size) (PREFIX @ salt @ ct @ tag) =
         PREFIX @ salt @ ct"
  using assms by simp_all

lemma decrypt_envelope:
  assumes salt: "length salt = SALT_LEN div 8"
      and tag: "length t = HASH_digest_size"
      and key: "expand_key L salt password = Inr key"
  shows "decrypt L password (PREFIX @ salt @ ct @ t) =
     (if hash L t = hash L (HMAC_digest L key (PREFIX @ salt @ ct))
      then Inr (cipher_decrypt L
                  (AES_new_CTR key (Counter_new HALF_BLOCK (take (HALF_BLOCK div 8) salt))) ct)
      else Inl (DecryptionException ''Bad password or corrupt / modified data''))"
  unfolding decrypt_cases [OF envelope_parts(1,2) [OF salt tag]]
    envelope_parts(3-5) [OF salt tag]
  by (simp add: key salt)

lemma encrypt_Inr_D:
  assumes "encrypt L g password data = (Inr env, g')"
  obtains salt key where
    "length data \<le> sys_maxsize"
    "randbytes L (SALT_LEN div 8) g = (salt, g')"
    "expand_key L salt password = Inr key"
    "env = PREFIX @ salt @
       cipher_encrypt L (AES_new_CTR key (Counter_new HALF_BLOCK (take (HALF_BLOCK div 8) salt))) data @
       HMAC_digest L key (PREFIX @ salt @
         cipher_encrypt L (AES_new_CTR key (Counter_new HALF_BLOCK (take (HALF_BLOCK div 8) salt))) data)"
proof -
  have len: "length data \<le> sys_maxsize"
  proof (rule ccontr)
    assume "\<not> length data \<le> sys_maxsize"
    then have "sys_maxsize < length data" by simp
    from encrypt_overflow [OF this, of L g password] assms show False by simp
  qed
  obtain salt g1 where s: "randbytes L (SALT_LEN div 8) g = (salt, g1)"
    by (cases "randbytes L (SALT_LEN div 8) g")
  from encrypt_cases [OF len s, of password] assms
  obtain key where "expand_key L salt password = Inr key" "g1 = g'"
    "env = PREFIX @ salt @
       cipher_encrypt L (AES_new_CTR key (Counter_new HALF_BLOCK (take (HALF_BLOCK div 8) salt))) data @
       HMAC_digest L key (PREFIX @ salt @
         cipher_encrypt L (AES_new_CTR key (Counter_new HALF_BLOCK (take (HALF_BLOCK div 8) salt))) data)"
    by (cases "expand_key L salt password") auto
  with len s that show thesis by blast
qed

lemma sizes_HMAC: "pycrypto_sizes L \<Longrightarrow> length (HMAC_digest L k m) = HASH_digest_size"
  by (simp add: pycrypto_sizes_def)

lemma randbytes_numeral:
  "randbytes L (numeral n) g =
     (case getrandbits8 L g of (b, g1) \<Rightarrow>
        (case randbytes L (pred_numeral n) g1 of (bs, g2) \<Rightarrow> (b # bs, g2)))"
  by (simp add: numeral_eq_Suc)

lemma replicate_numeral: "replicate (numeral n) x = x # replicate (pred_numeral n) x"
  by (simp add: numeral_eq_Suc)

lemmas model_defs =
  encrypt_def decrypt_def assert_encrypt_length_def assert_decrypt_length_def assert_prefix_def
  assert_hmac_def hash_def expand_key_def Counter_new_def AES_new_CTR_def cipher_encrypt_def
  cipher_decrypt_def keystream_def counter_block_def be_bytes_def xor_bytes_def blocks_for_def
  PREFIX_def SALT_LEN_def HALF_BLOCK_def AES_block_size_def HASH_digest_size_def AES_KEY_LEN_def
  EXPANSION_COUNT_def demo_lib_def probe_lib_def pad_to_def randbytes_numeral replicate_numeral
  upt_conv_Cons py_len_def sys_maxsize_def utf8_char_def code_points_def

lemma demo_randbytes:
  "randbytes demo_lib 16 0 = ([3, 10, 17, 24, 31, 38, 45, 52, 59, 66, 73, 80, 87, 94, 101, 108], 16)"
  by (simp add: model_defs)

lemma demo_encrypt_hello:
  "encrypt demo_lib 0 (code_points ''correct horse battery staple'') hello_world = (Inr demo_envelope, 16)"
  by (simp add: model_defs hello_world_def demo_envelope_def)

lemma demo_encrypt_empty:
  "encrypt demo_lib 0 (code_points ''pw'') [] = (Inr demo_envelope_empty, 16)"
  by (simp add: model_defs demo_envelope_empty_def)

lemma demo_decrypt_wrong_password:
  "decrypt demo_lib (code_points ''wrong password'') demo_envelope =
     Inl (DecryptionException ''Bad password or corrupt / modified data'')"
  by (simp add: model_defs demo_envelope_def)

lemma probe_encrypt_zero:
  "fst (encrypt probe_lib 0 (code_points ''pw'') (replicate 16 0)) =
     Inr ([115, 99, 0, 0] @
          [3, 10, 17, 24, 31, 38, 45, 52, 59, 66, 73, 80, 87, 94, 101, 108] @
          [3, 10, 17, 24, 31, 38, 45, 52, 0, 0, 0, 0, 0, 0, 0, 1] @
          [230, 228, 17, 24, 34, 48, 62, 76, 90, 104, 118, 132, 146, 160, 174, 188,
           87, 94, 101, 108, 3, 10, 17, 24, 31, 38, 45, 52, 0, 0, 0, 0])"
  by (simp add: model_defs)

subsection \<open>C1: decrypt inverts encrypt\<close>

text \<open>
  Claim C1, as amended. For every non-empty password that holds no surrogate code
  point (exactly the passwords that \<^verbatim>\<open>password.encode('utf8')\<close> encodes, by lemma
  \<open>encode_utf8_Inr\<close>) and every plaintext (a \<^verbatim>\<open>bytes\<close> value has at most \<open>sys_maxsize\<close>
  bytes, which is below the bound of \<open>2 ^ 64\<close>), \<open>encrypt\<close> returns an envelope, and
  \<open>decrypt\<close> with the same password returns the plaintext from it. The state \<open>g\<close> of the
  random source is arbitrary, so this holds for every salt that can be drawn. The
  primitives are assumed to have their output sizes.
\<close>

theorem decrypt_encrypt_roundtrip:
  assumes "pycrypto_sizes L" and "password \<noteq> []"
      and "\<forall>c \<in> set password. c < 0xD800 \<or> 0xE000 \<le> c"
      and "length m \<le> sys_maxsize"
  shows "\<exists>env g'. encrypt L g password m = (Inr env, g') \<and> decrypt L password env = Inr m"
proof -
  obtain salt g' where s: "randbytes L (SALT_LEN div 8) g = (salt, g')"
    by (cases "randbytes L (SALT_LEN div 8) g")
  have ls: "length salt = SALT_LEN div 8" by (rule length_randbytes [OF s])
  from assms(3) obtain pw where pw: "encode_utf8 password = Inr pw"
    using encode_utf8_Inr [of password] by blast
  from salt_nonempty [OF s] assms(2) pw obtain key where k: "expand_key L salt password = Inr key"
    by (simp add: expand_key_def)
  define cipher where "cipher = AES_new_CTR key (Counter_new HALF_BLOCK (take (HALF_BLOCK div 8) salt))"
  define ct where "ct = cipher_encrypt L cipher m"
  define env where "env = PREFIX @ salt @ ct @ HMAC_digest L key (PREFIX @ salt @ ct)"
  from encrypt_cases [OF assms(4) s, of password]
  have e: "encrypt L g password m = (Inr env, g')"
    by (simp add: k env_def ct_def cipher_def)
  have "decrypt L password env = Inr (cipher_decrypt L cipher ct)"
    unfolding env_def cipher_def
    by (simp add: decrypt_envelope [OF ls sizes_HMAC [OF assms(1)] k])
  also have "cipher_decrypt L cipher ct = m"
    unfolding ct_def by (rule cipher_decrypt_encrypt [OF assms(1)])
  finally show ?thesis using e by blast
qed

theorem decrypt_encrypt_roundtrip_witness:
  "pycrypto_sizes demo_lib \<and> code_points ''correct horse battery staple'' \<noteq> [] \<and>
   list_all (\<lambda>c. c < 0xD800 \<or> 0xE000 \<le> c) (code_points ''correct horse battery staple'') \<and>
   length hello_world \<le> sys_maxsize \<and>
   encrypt demo_lib 0 (code_points ''correct horse battery staple'') hello_world =
     (Inr demo_envelope, 16) \<and>
   decrypt demo_lib (code_points ''correct horse battery staple'') demo_envelope = Inr hello_world"
proof -
  have a: "code_points ''correct horse battery staple'' \<noteq> []" by (simp add: code_points_def)
  have b: "list_all (\<lambda>c. c < 0xD800 \<or> 0xE000 \<le> c) (code_points ''correct horse battery staple'')"
    by (simp add: code_points_def)
  then have b': "\<forall>c \<in> set (code_points ''correct horse battery staple''). c < 0xD800 \<or> 0xE000 \<le> c"
    by (simp only: list_all_iff)
  have c: "length hello_world \<le> sys_maxsize" by (simp add: hello_world_def sys_maxsize_def)
  from decrypt_encrypt_roundtrip [OF demo_lib_sizes a b' c, of 0]
  have "decrypt demo_lib (code_points ''correct horse battery staple'') demo_envelope = Inr hello_world"
    by (simp add: demo_encrypt_hello)
  with demo_lib_sizes a b c demo_encrypt_hello show ?thesis by (intro conjI)
qed

text \<open>
  The claim as written takes every non-empty password. The one-character password
  \<^verbatim>\<open>'\ud800'\<close>, a lone surrogate, is a non-empty \<^verbatim>\<open>str\<close>; \<open>encrypt\<close> draws the salt and
  then fails in \<open>expand_key\<close> with \<^verbatim>\<open>UnicodeEncodeError\<close>, so there is no envelope to
  decrypt.
\<close>

theorem roundtrip_lone_surrogate_counterexample:
  "[0xD800] \<noteq> ([] :: nat list) \<and> length hello_world < 2 ^ 64 \<and>
   encrypt demo_lib 0 [0xD800] hello_world =
     (Inl (UnicodeEncodeError ''surrogates not allowed''), 16)"
  by (simp add: model_defs hello_world_def)

subsection \<open>C2: the length bound of encrypt\<close>



subsection \<open>C3: the layout of the envelope\<close>

text \<open>
  Claim C3. Whenever \<open>encrypt\<close> returns an envelope, it is the 4-byte format prefix,
  then the 16-byte salt drawn from the random source, then the ciphertext (the
  counter-mode encryption of the plaintext under the derived key, as long as the
  plaintext), then the 32-byte tag (the keyed hash of prefix, salt and ciphertext): each
  part stands at its offset, and there are \<open>52 + length data\<close> bytes in all (63 for the
  11 bytes of \<^verbatim>\<open>b"hello world"\<close>, 52 for the empty plaintext).
\<close>

theorem encrypt_envelope_layout:
  assumes "pycrypto_sizes L" and "encrypt L g password data = (Inr env, g')"
  shows "\<exists>salt key ciphertext tag.
           randbytes L 16 g = (salt, g') \<and>
           expand_key L salt password = Inr key \<and>
           ciphertext = cipher_encrypt L
             (AES_new_CTR key (Counter_new HALF_BLOCK (take (HALF_BLOCK div 8) salt))) data \<and>
           tag = HMAC_digest L key (PREFIX @ salt @ ciphertext) \<and>
           env = PREFIX @ salt @ ciphertext @ tag \<and>
           length PREFIX = 4 \<and> length salt = 16 \<and>
           length ciphertext = length data \<and> length tag = 32 \<and>
           length env = 52 + length data \<and>
           take 4 env = PREFIX \<and>
           take 16 (drop 4 env) = salt \<and>
           take (length data) (drop 20 env) = ciphertext \<and>
           drop (20 + length data) env = tag"
proof -
  from assms(2) obtain salt key where
    s: "randbytes L (SALT_LEN div 8) g = (salt, g')" and
    k: "expand_key L salt password = Inr key" and
    env: "env = PREFIX @ salt @
       cipher_encrypt L (AES_new_CTR key (Counter_new HALF_BLOCK (take (HALF_BLOCK div 8) salt))) data @
       HMAC_digest L key (PREFIX @ salt @
         cipher_encrypt L (AES_new_CTR key (Counter_new HALF_BLOCK (take (HALF_BLOCK div 8) salt))) data)"
    by (rule encrypt_Inr_D)
  define ct where
    "ct = cipher_encrypt L (AES_new_CTR key (Counter_new HALF_BLOCK (take (HALF_BLOCK div 8) salt))) data"
  define tag where "tag = HMAC_digest L key (PREFIX @ salt @ ct)"
  have e: "env = PREFIX @ salt @ ct @ tag" by (simp add: env ct_def tag_def)
  have s16: "randbytes L 16 g = (salt, g')" using s by (simp add: SALT_LEN_def)
  have l1: "length salt = 16" by (rule length_randbytes [OF s16])
  have l2: "length ct = length data" unfolding ct_def by (rule length_cipher_encrypt [OF assms(1)])
  have l3: "length tag = 32"
    unfolding tag_def by (simp add: sizes_HMAC [OF assms(1)] HASH_digest_size_def)
  have l4: "length env = 52 + length data" by (simp add: e l1 l2 l3 length_PREFIX)
  have p1: "take 4 env = PREFIX" by (simp add: e length_PREFIX)
  have p2: "take 16 (drop 4 env) = salt" by (simp add: e length_PREFIX l1)
  have d20: "drop 20 env = ct @ tag" by (simp add: e length_PREFIX l1)
  have p3: "take (length data) (drop 20 env) = ct" by (simp add: d20 l2)
  have "drop (20 + length data) env = drop (length data) (drop 20 env)"
    by (simp add: add.commute)
  then have p4: "drop (20 + length data) env = tag" by (simp add: d20 l2)
  from s16 k ct_def tag_def e length_PREFIX l1 l2 l3 l4 p1 p2 p3 p4 show ?thesis by blast
qed

theorem encrypt_envelope_layout_witness:
  "pycrypto_sizes demo_lib \<and>
   encrypt demo_lib 0 (code_points ''correct horse battery staple'') hello_world =
     (Inr demo_envelope, 16) \<and>
   length hello_world = 11 \<and>
   length demo_envelope = 63 \<and>
   take 4 demo_envelope = PREFIX \<and>
   take 16 (drop 4 demo_envelope) =
     [3, 10, 17, 24, 31, 38, 45, 52, 59, 66, 73, 80, 87, 94, 101, 108] \<and>
   take (length hello_world) (drop 20 demo_envelope) =
     [1, 230, 248, 206, 204, 143, 185, 231, 209, 221, 223] \<and>
   drop (20 + length hello_world) demo_envelope =
     [217, 220, 131, 138, 135, 147, 178, 108, 194, 215, 232, 247, 247, 192, 16, 29, 203,
      210, 202, 222, 122, 6, 107, 66, 45, 255, 37, 76, 209, 221, 223, 0] \<and>
   encrypt demo_lib 0 (code_points ''pw'') [] = (Inr demo_envelope_empty, 16) \<and>
   length demo_envelope_empty = 52"
proof -
  note layout = encrypt_envelope_layout [OF demo_lib_sizes demo_encrypt_hello]
  have a: "length hello_world = 11" by (simp add: hello_world_def)
  from layout a have b: "length demo_envelope = 63" by auto
  from layout have p1: "take 4 demo_envelope = PREFIX" by blast
  have p2: "take 16 (drop 4 demo_envelope) =
     [3, 10, 17, 24, 31, 38, 45, 52, 59, 66, 73, 80, 87, 94, 101, 108]"
    by (simp add: demo_envelope_def)
  have p3: "take (length hello_world) (drop 20 demo_envelope) =
     [1, 230, 248, 206, 204, 143, 185, 231, 209, 221, 223]"
    by (simp add: demo_envelope_def a)
  have p4: "drop (20 + length hello_world) demo_envelope =
     [217, 220, 131, 138, 135, 147, 178, 108, 194, 215, 232, 247, 247, 192, 16, 29, 203,
      210, 202, 222, 122, 6, 107, 66, 45, 255, 37, 76, 209, 221, 223, 0]"
    by (simp add: demo_envelope_def a)
  from encrypt_envelope_layout [OF demo_lib_sizes demo_encrypt_empty]
  have c: "length demo_envelope_empty = 52" by auto
  from demo_lib_sizes demo_encrypt_hello a b p1 p2 p3 p4 demo_encrypt_empty c
  show ?thesis by (intro conjI)
qed

subsection \<open>C4: hash-then-compare verification of the tag\<close>

text \<open>
  Claim C4. \<open>assert_hmac\<close> computes the digest \<open>HASH_digest\<close> of each of its two
  arguments (through \<open>hash\<close>, the module's \<^verbatim>\<open>_hash\<close>) and fails exactly when the two
  digests differ. \<open>decrypt\<close> fails with the one generic condition exactly when it reaches
  that check (the envelope has at least 52 bytes and the right prefix, and the key was
  derived) and the digest of the stored tag, the last 32 bytes, differs from the digest
  of the tag recomputed over the rest; and it returns a plaintext exactly when it
  reaches the check and the two digests agree, the plaintext being the decryption of
  the whole ciphertext. A result is an error or a plaintext, never both.
\<close>

theorem decrypt_hash_then_compare:
  "hash L hmac = HASH_digest L hmac \<and>
   (assert_hmac L hmac hmac2 =
      Inl (DecryptionException ''Bad password or corrupt / modified data'') \<longleftrightarrow>
    HASH_digest L hmac \<noteq> HASH_digest L hmac2) \<and>
   (assert_hmac L hmac hmac2 = Inr () \<longleftrightarrow> HASH_digest L hmac = HASH_digest L hmac2) \<and>
   (decrypt L password data =
      Inl (DecryptionException ''Bad password or corrupt / modified data'') \<longleftrightarrow>
    (\<exists>key. 52 \<le> length data \<and> take 4 data = PREFIX \<and>
           expand_key L (take 16 (drop 4 data)) password = Inr key \<and>
           HASH_digest L (drop (length data - 32) data) \<noteq>
           HASH_digest L (HMAC_digest L key (take (length data - 32) data)))) \<and>
   (decrypt L password data = Inr m \<longleftrightarrow>
    (\<exists>key. 52 \<le> length data \<and> take 4 data = PREFIX \<and>
           expand_key L (take 16 (drop 4 data)) password = Inr key \<and>
           HASH_digest L (drop (length data - 32) data) =
           HASH_digest L (HMAC_digest L key (take (length data - 32) data)) \<and>
           m = cipher_decrypt L (AES_new_CTR key (Counter_new 64 (take 8 (drop 4 data))))
                 (drop 20 (take (length data - 32) data))))"
proof -
  have A: "assert_hmac L hmac hmac2 =
      Inl (DecryptionException ''Bad password or corrupt / modified data'') \<longleftrightarrow>
    HASH_digest L hmac \<noteq> HASH_digest L hmac2"
    by (simp add: assert_hmac_def hash_def)
  have B: "assert_hmac L hmac hmac2 = Inr () \<longleftrightarrow> HASH_digest L hmac = HASH_digest L hmac2"
    by (simp add: assert_hmac_def hash_def)
  consider (short) "length data < 52"
    | (prefix) "52 \<le> length data" "take 4 data \<noteq> PREFIX"
    | (reach) "52 \<le> length data" "take 4 data = PREFIX"
    by linarith
  then have "(decrypt L password data =
      Inl (DecryptionException ''Bad password or corrupt / modified data'') \<longleftrightarrow>
    (\<exists>key. 52 \<le> length data \<and> take 4 data = PREFIX \<and>
           expand_key L (take 16 (drop 4 data)) password = Inr key \<and>
           HASH_digest L (drop (length data - 32) data) \<noteq>
           HASH_digest L (HMAC_digest L key (take (length data - 32) data)))) \<and>
   (decrypt L password data = Inr m \<longleftrightarrow>
    (\<exists>key. 52 \<le> length data \<and> take 4 data = PREFIX \<and>
           expand_key L (take 16 (drop 4 data)) password = Inr key \<and>
           HASH_digest L (drop (length data - 32) data) =
           HASH_digest L (HMAC_digest L key (take (length data - 32) data)) \<and>
           m = cipher_decrypt L (AES_new_CTR key (Counter_new 64 (take 8 (drop 4 data))))
                 (drop 20 (take (length data - 32) data))))"
  proof cases
    case short
    then have "decrypt L password data = Inl (DecryptionException ''Missing data'')"
      by (intro decrypt_short) (simp only: min_envelope)
    with short show ?thesis by simp
  next
    case prefix
    have "decrypt L password data = Inl (DecryptionException ''Bad data format'')"
    proof (rule decrypt_bad_prefix)
      show "length PREFIX + SALT_LEN div 8 + HASH_digest_size \<le> length data"
        using prefix(1) by (simp only: min_envelope)
      show "take (length PREFIX) data \<noteq> PREFIX"
        using prefix(2) by (simp add: length_PREFIX)
    qed
    with prefix show ?thesis by simp
  next
    case reach
    have a: "length PREFIX + SALT_LEN div 8 + HASH_digest_size \<le> length data"
      using reach(1) by (simp only: min_envelope)
    have b: "take (length PREFIX) data = PREFIX"
      using reach(2) by (simp add: length_PREFIX)
    note d = decrypt_cases [OF a b, of L password]
    show ?thesis
    proof (cases "expand_key L (take 16 (drop 4 data)) password")
      case (Inl e)
      from expand_key_Inl [OF Inl] d Inl show ?thesis
        by (auto simp: length_PREFIX SALT_LEN_def)
    next
      case (Inr key)
      with d reach show ?thesis
        by (auto simp: length_PREFIX SALT_LEN_def HASH_digest_size_def HALF_BLOCK_64 hash_def)
    qed
  qed
  moreover have "hash L hmac = HASH_digest L hmac" by (simp add: hash_def)
  ultimately show ?thesis using A B by blast
qed

theorem decrypt_hash_then_compare_witness:
  "decrypt demo_lib (code_points ''wrong password'') demo_envelope =
     Inl (DecryptionException ''Bad password or corrupt / modified data'') \<and>
   (\<exists>key. 52 \<le> length demo_envelope \<and> take 4 demo_envelope = PREFIX \<and>
          expand_key demo_lib (take 16 (drop 4 demo_envelope)) (code_points ''wrong password'') = Inr key \<and>
          HASH_digest demo_lib (drop (length demo_envelope - 32) demo_envelope) \<noteq>
          HASH_digest demo_lib (HMAC_digest demo_lib key (take (length demo_envelope - 32) demo_envelope)))"
  using decrypt_hash_then_compare [of demo_lib _ _ "code_points ''wrong password''" demo_envelope]
    demo_decrypt_wrong_password
  by simp


subsection \<open>C5: truncated envelopes\<close>

text \<open>
  Claim C5. For every password and every envelope strictly shorter than 52 bytes (the
  length of the prefix, the salt and the tag together), \<open>decrypt\<close> fails with the
  missing-data condition. Nothing is assumed of the envelope's content or of the
  password (it may be empty, the prefix may be wrong): the length check comes first.
\<close>

theorem decrypt_missing_data:
  assumes "length data < 52"
  shows "decrypt L password data = Inl (DecryptionException ''Missing data'') \<and>
         length PREFIX + SALT_LEN div 8 + HASH_digest_size = 52"
  using assms decrypt_short [of data L password] by (simp add: min_envelope)

theorem decrypt_missing_data_witness:
  "length (PREFIX @ [3, 10, 17, 24, 31, 38]) < 52 \<and>
   decrypt demo_lib (code_points ''correct horse battery staple'') (PREFIX @ [3, 10, 17, 24, 31, 38]) =
     Inl (DecryptionException ''Missing data'') \<and>
   length PREFIX + SALT_LEN div 8 + HASH_digest_size = 52"
  using decrypt_missing_data [of "PREFIX @ [3, 10, 17, 24, 31, 38]" demo_lib
      "code_points ''correct horse battery staple''"]
  by (simp add: PREFIX_def)

subsection \<open>C6: a wrong format prefix\<close>

text \<open>
  Claim C6. For every password and every envelope of at least 52 bytes whose first 4
  bytes are not the format prefix, \<open>decrypt\<close> fails with the bad-format condition.
\<close>

theorem decrypt_bad_format:
  assumes "52 \<le> length data" and "take 4 data \<noteq> PREFIX"
  shows "decrypt L password data = Inl (DecryptionException ''Bad data format'')"
proof -
  have a: "length PREFIX + SALT_LEN div 8 + HASH_digest_size \<le> length data"
    using assms(1) by (simp only: min_envelope)
  have b: "take (length PREFIX) data \<noteq> PREFIX"
    using assms(2) by (simp add: length_PREFIX)
  from a b show ?thesis by (rule decrypt_bad_prefix)
qed

theorem decrypt_bad_format_witness:
  "52 \<le> length ([0x58, 0x58, 0x58, 0x58] @ replicate 48 (0 :: byte)) \<and>
   take 4 ([0x58, 0x58, 0x58, 0x58] @ replicate 48 (0 :: byte)) \<noteq> PREFIX \<and>
   decrypt demo_lib (code_points ''correct horse battery staple'') ([0x58, 0x58, 0x58, 0x58] @ replicate 48 0) =
     Inl (DecryptionException ''Bad data format'')"
  using decrypt_bad_format [of "[0x58, 0x58, 0x58, 0x58] @ replicate 48 0" demo_lib
      "code_points ''correct horse battery staple''"]
  by (simp add: PREFIX_def)

subsection \<open>C7: what the tag authenticates\<close>

text \<open>
  Claim C7. In an envelope that \<open>encrypt\<close> returns, the tag is the keyed hash, under the
  derived key, of prefix, salt and ciphertext. The bytes \<open>decrypt\<close> authenticates
  (\<^verbatim>\<open>data[:-HASH.digest_size]\<close>, all but the last 32) are that same string, the key
  \<open>decrypt\<close> derives from the salt it reads back is the same key, and so, whatever 32
  bytes stand in the tag's place, \<open>decrypt\<close> compares them with the keyed hash of
  prefix, salt and ciphertext.
\<close>

theorem tag_covers_prefix_salt_ciphertext:
  assumes "pycrypto_sizes L" and "encrypt L g password data = (Inr env, g')"
  shows "\<exists>salt key encrypted.
           randbytes L (SALT_LEN div 8) g = (salt, g') \<and>
           expand_key L salt password = Inr key \<and>
           encrypted = cipher_encrypt L
             (AES_new_CTR key (Counter_new HALF_BLOCK (take (HALF_BLOCK div 8) salt))) data \<and>
           env = (PREFIX @ salt @ encrypted) @ HMAC_digest L key (PREFIX @ salt @ encrypted) \<and>
           take (length env - HASH_digest_size) env = PREFIX @ salt @ encrypted \<and>
           drop (length env - HASH_digest_size) env =
             HMAC_digest L key (PREFIX @ salt @ encrypted) \<and>
           expand_key L (take (SALT_LEN div 8) (drop (length PREFIX) env)) password = Inr key \<and>
           (\<forall>t. length t = HASH_digest_size \<longrightarrow>
              decrypt L password (PREFIX @ salt @ encrypted @ t) =
                (if hash L t = hash L (HMAC_digest L key (PREFIX @ salt @ encrypted))
                 then Inr data
                 else Inl (DecryptionException ''Bad password or corrupt / modified data'')))"
proof -
  from assms(2) obtain salt key where
    s: "randbytes L (SALT_LEN div 8) g = (salt, g')" and
    k: "expand_key L salt password = Inr key" and
    env: "env = PREFIX @ salt @
       cipher_encrypt L (AES_new_CTR key (Counter_new HALF_BLOCK (take (HALF_BLOCK div 8) salt))) data @
       HMAC_digest L key (PREFIX @ salt @
         cipher_encrypt L (AES_new_CTR key (Counter_new HALF_BLOCK (take (HALF_BLOCK div 8) salt))) data)"
    by (rule encrypt_Inr_D)
  define ct where
    "ct = cipher_encrypt L (AES_new_CTR key (Counter_new HALF_BLOCK (take (HALF_BLOCK div 8) salt))) data"
  define tag where "tag = HMAC_digest L key (PREFIX @ salt @ ct)"
  have ls: "length salt = SALT_LEN div 8" by (rule length_randbytes [OF s])
  have lt: "length tag = HASH_digest_size" unfolding tag_def by (rule sizes_HMAC [OF assms(1)])
  have e: "env = PREFIX @ salt @ ct @ tag" by (simp add: env ct_def tag_def)
  have e1: "env = (PREFIX @ salt @ ct) @ tag" by (simp add: e)
  have p1: "take (length env - HASH_digest_size) env = PREFIX @ salt @ ct"
    unfolding e by (rule envelope_parts(5) [OF ls lt])
  have p2: "drop (length env - HASH_digest_size) env = tag"
    unfolding e by (rule envelope_parts(4) [OF ls lt])
  have p3: "expand_key L (take (SALT_LEN div 8) (drop (length PREFIX) env)) password = Inr key"
    unfolding e envelope_parts(3) [OF ls lt] by (rule k)
  have p4: "\<forall>t. length t = HASH_digest_size \<longrightarrow>
              decrypt L password (PREFIX @ salt @ ct @ t) =
                (if hash L t = hash L (HMAC_digest L key (PREFIX @ salt @ ct))
                 then Inr data
                 else Inl (DecryptionException ''Bad password or corrupt / modified data''))"
  proof (intro allI impI)
    fix t :: bytes
    assume t: "length t = HASH_digest_size"
    show "decrypt L password (PREFIX @ salt @ ct @ t) =
                (if hash L t = hash L (HMAC_digest L key (PREFIX @ salt @ ct))
                 then Inr data
                 else Inl (DecryptionException ''Bad password or corrupt / modified data''))"
      unfolding decrypt_envelope [OF ls t k]
      by (simp add: ct_def cipher_decrypt_encrypt [OF assms(1)])
  qed
  from s k e1 p1 p2 p3 p4 show ?thesis
    unfolding tag_def ct_def by blast
qed

theorem tag_covers_prefix_salt_ciphertext_witness:
  "pycrypto_sizes demo_lib \<and>
   encrypt demo_lib 0 (code_points ''correct horse battery staple'') hello_world = (Inr demo_envelope, 16) \<and>
   (\<exists>salt key encrypted.
      randbytes demo_lib (SALT_LEN div 8) 0 = (salt, 16) \<and>
      expand_key demo_lib salt (code_points ''correct horse battery staple'') = Inr key \<and>
      encrypted = cipher_encrypt demo_lib
        (AES_new_CTR key (Counter_new HALF_BLOCK (take (HALF_BLOCK div 8) salt))) hello_world \<and>
      demo_envelope =
        (PREFIX @ salt @ encrypted) @ HMAC_digest demo_lib key (PREFIX @ salt @ encrypted) \<and>
      take (length demo_envelope - HASH_digest_size) demo_envelope = PREFIX @ salt @ encrypted \<and>
      drop (length demo_envelope - HASH_digest_size) demo_envelope =
        HMAC_digest demo_lib key (PREFIX @ salt @ encrypted) \<and>
      expand_key demo_lib (take (SALT_LEN div 8) (drop (length PREFIX) demo_envelope))
        (code_points ''correct horse battery staple'') = Inr key \<and>
      (\<forall>t. length t = HASH_digest_size \<longrightarrow>
         decrypt demo_lib (code_points ''correct horse battery staple'') (PREFIX @ salt @ encrypted @ t) =
           (if hash demo_lib t = hash demo_lib (HMAC_digest demo_lib key (PREFIX @ salt @ encrypted))
            then Inr hello_world
            else Inl (DecryptionException ''Bad password or corrupt / modified data'')))) \<and>
   take (length demo_envelope - HASH_digest_size) demo_envelope =
     [115, 99, 0, 0,
      3, 10, 17, 24, 31, 38, 45, 52, 59, 66, 73, 80, 87, 94, 101, 108,
      1, 230, 248, 206, 204, 143, 185, 231, 209, 221, 223]"
proof -
  note t = tag_covers_prefix_salt_ciphertext [OF demo_lib_sizes demo_encrypt_hello]
  have a: "take (length demo_envelope - HASH_digest_size) demo_envelope =
     [115, 99, 0, 0,
      3, 10, 17, 24, 31, 38, 45, 52, 59, 66, 73, 80, 87, 94, 101, 108,
      1, 230, 248, 206, 204, 143, 185, 231, 209, 221, 223]"
    by (simp add: demo_envelope_def HASH_digest_size_def)
  from demo_lib_sizes demo_encrypt_hello t a show ?thesis by (intro conjI)
qed

subsection \<open>C8: one counter-mode cipher state for both directions\<close>

text \<open>
  Claim C8, as amended. For every salt the random source draws, \<open>encrypt\<close> and
  \<open>decrypt\<close> build the same counter-mode cipher: the key is the derived key, the fixed
  nonce prefix of the counter is the first 8 bytes (\<open>HALF_BLOCK div 8\<close>) of the salt, which
  \<open>decrypt\<close> reads back from the envelope, and the remaining 64 counter bits start at
  1, the default initial value of \<^verbatim>\<open>Counter.new\<close>, which neither call overrides: the first
  counter block is the prefix followed by \<^verbatim>\<open>00 00 00 00 00 00 00 01\<close>. The keystream that
  \<open>decrypt\<close> xors onto the ciphertext is therefore the keystream that \<open>encrypt\<close> xored
  onto the plaintext.
\<close>

theorem ctr_cipher_shared:
  assumes "pycrypto_sizes L" and "encrypt L g password data = (Inr env, g')"
  shows "\<exists>salt key cipher.
           randbytes L (SALT_LEN div 8) g = (salt, g') \<and>
           expand_key L salt password = Inr key \<and>
           cipher = AES_new_CTR key (Counter_new HALF_BLOCK (take (HALF_BLOCK div 8) salt)) \<and>
           cipher = AES_new_CTR key (Counter_new HALF_BLOCK (take (HALF_BLOCK div 8)
                      (take (SALT_LEN div 8) (drop (length PREFIX) env)))) \<and>
           cipher = \<lparr>cipher_key = key,
                      cipher_counter = \<lparr>ctr_nbits = 64, ctr_prefix = take 8 salt,
                                         ctr_initial_value = 1\<rparr>\<rparr> \<and>
           counter_block (cipher_counter cipher) 0 = take 8 salt @ [0, 0, 0, 0, 0, 0, 0, 1] \<and>
           env = PREFIX @ salt @ cipher_encrypt L cipher data @
                   HMAC_digest L key (PREFIX @ salt @ cipher_encrypt L cipher data) \<and>
           cipher_encrypt L cipher data =
             xor_bytes data (keystream L cipher (blocks_for (length data))) \<and>
           decrypt L password env =
             Inr (xor_bytes (cipher_encrypt L cipher data)
                    (keystream L cipher (blocks_for (length data))))"
proof -
  from assms(2) obtain salt key where
    s: "randbytes L (SALT_LEN div 8) g = (salt, g')" and
    k: "expand_key L salt password = Inr key" and
    env: "env = PREFIX @ salt @
       cipher_encrypt L (AES_new_CTR key (Counter_new HALF_BLOCK (take (HALF_BLOCK div 8) salt))) data @
       HMAC_digest L key (PREFIX @ salt @
         cipher_encrypt L (AES_new_CTR key (Counter_new HALF_BLOCK (take (HALF_BLOCK div 8) salt))) data)"
    by (rule encrypt_Inr_D)
  define cipher where
    "cipher = AES_new_CTR key (Counter_new HALF_BLOCK (take (HALF_BLOCK div 8) salt))"
  define ct where "ct = cipher_encrypt L cipher data"
  define tag where "tag = HMAC_digest L key (PREFIX @ salt @ ct)"
  have ls: "length salt = SALT_LEN div 8" by (rule length_randbytes [OF s])
  have lt: "length tag = HASH_digest_size" unfolding tag_def by (rule sizes_HMAC [OF assms(1)])
  have e: "env = PREFIX @ salt @ ct @ tag" by (simp add: env ct_def tag_def cipher_def)
  have c1: "cipher = AES_new_CTR key (Counter_new HALF_BLOCK (take (HALF_BLOCK div 8)
                      (take (SALT_LEN div 8) (drop (length PREFIX) env))))"
    unfolding e envelope_parts(3) [OF ls lt] by (rule cipher_def)
  have c2: "cipher = \<lparr>cipher_key = key,
                      cipher_counter = \<lparr>ctr_nbits = 64, ctr_prefix = take 8 salt,
                                         ctr_initial_value = 1\<rparr>\<rparr>"
    by (simp add: cipher_def AES_new_CTR_def Counter_new_def HALF_BLOCK_64)
  have c3: "counter_block (cipher_counter cipher) 0 = take 8 salt @ [0, 0, 0, 0, 0, 0, 0, 1]"
    unfolding c2 by (simp add: counter_block_def be_bytes_def upt_conv_Cons)
  have c4: "env = PREFIX @ salt @ cipher_encrypt L cipher data @
                   HMAC_digest L key (PREFIX @ salt @ cipher_encrypt L cipher data)"
    using e by (simp add: ct_def tag_def)
  have c5: "cipher_encrypt L cipher data =
             xor_bytes data (keystream L cipher (blocks_for (length data)))"
    by (simp add: cipher_encrypt_def)
  have "decrypt L password env = Inr (cipher_decrypt L cipher ct)"
    unfolding e tag_def cipher_def
    by (simp add: decrypt_envelope [OF ls sizes_HMAC [OF assms(1)] k])
  also have "cipher_decrypt L cipher ct =
      xor_bytes ct (keystream L cipher (blocks_for (length data)))"
    by (simp add: cipher_decrypt_def ct_def length_cipher_encrypt [OF assms(1)])
  finally have c6: "decrypt L password env =
             Inr (xor_bytes (cipher_encrypt L cipher data)
                    (keystream L cipher (blocks_for (length data))))"
    by (simp add: ct_def)
  from s k cipher_def c1 c2 c3 c4 c5 c6 show ?thesis by blast
qed

theorem ctr_cipher_shared_witness:
  "pycrypto_sizes demo_lib \<and>
   encrypt demo_lib 0 (code_points ''correct horse battery staple'') hello_world = (Inr demo_envelope, 16) \<and>
   (\<exists>salt key cipher.
           randbytes demo_lib (SALT_LEN div 8) 0 = (salt, 16) \<and>
           expand_key demo_lib salt (code_points ''correct horse battery staple'') = Inr key \<and>
           cipher = AES_new_CTR key (Counter_new HALF_BLOCK (take (HALF_BLOCK div 8) salt)) \<and>
           cipher = AES_new_CTR key (Counter_new HALF_BLOCK (take (HALF_BLOCK div 8)
                      (take (SALT_LEN div 8) (drop (length PREFIX) demo_envelope)))) \<and>
           cipher = \<lparr>cipher_key = key,
                      cipher_counter = \<lparr>ctr_nbits = 64, ctr_prefix = take 8 salt,
                                         ctr_initial_value = 1\<rparr>\<rparr> \<and>
           counter_block (cipher_counter cipher) 0 = take 8 salt @ [0, 0, 0, 0, 0, 0, 0, 1] \<and>
           demo_envelope = PREFIX @ salt @ cipher_encrypt demo_lib cipher hello_world @
                   HMAC_digest demo_lib key (PREFIX @ salt @ cipher_encrypt demo_lib cipher hello_world) \<and>
           cipher_encrypt demo_lib cipher hello_world =
             xor_bytes hello_world (keystream demo_lib cipher (blocks_for (length hello_world))) \<and>
           decrypt demo_lib (code_points ''correct horse battery staple'') demo_envelope =
             Inr (xor_bytes (cipher_encrypt demo_lib cipher hello_world)
                    (keystream demo_lib cipher (blocks_for (length hello_world))))) \<and>
   decrypt demo_lib (code_points ''correct horse battery staple'') demo_envelope = Inr hello_world"
proof -
  note t = ctr_cipher_shared [OF demo_lib_sizes demo_encrypt_hello]
  have d: "decrypt demo_lib (code_points ''correct horse battery staple'') demo_envelope = Inr hello_world"
    by (simp add: model_defs hello_world_def demo_envelope_def)
  from demo_lib_sizes demo_encrypt_hello t d show ?thesis by (intro conjI)
qed

text \<open>
  The claim as written has the counter bits start at zero. For the salt that the
  instance above draws first, the counter that both functions build has initial value 1
  and its first block ends in \<^verbatim>\<open>01\<close>; with the block function that returns its input,
  the ciphertext of sixteen zero bytes is that first counter block.
\<close>

theorem ctr_starts_at_one_counterexample:
  "randbytes demo_lib 16 0 =
     ([3, 10, 17, 24, 31, 38, 45, 52, 59, 66, 73, 80, 87, 94, 101, 108], 16) \<and>
   ctr_initial_value (Counter_new HALF_BLOCK (take (HALF_BLOCK div 8)
      [3, 10, 17, 24, 31, 38, 45, 52, 59, 66, 73, 80, 87, 94, 101, 108])) \<noteq> 0 \<and>
   counter_block (Counter_new HALF_BLOCK (take (HALF_BLOCK div 8)
      [3, 10, 17, 24, 31, 38, 45, 52, 59, 66, 73, 80, 87, 94, 101, 108])) 0 =
     [3, 10, 17, 24, 31, 38, 45, 52] @ [0, 0, 0, 0, 0, 0, 0, 1] \<and>
   fst (encrypt probe_lib 0 (code_points ''pw'') (replicate 16 0)) =
     Inr ([115, 99, 0, 0] @
          [3, 10, 17, 24, 31, 38, 45, 52, 59, 66, 73, 80, 87, 94, 101, 108] @
          [3, 10, 17, 24, 31, 38, 45, 52, 0, 0, 0, 0, 0, 0, 0, 1] @
          [230, 228, 17, 24, 34, 48, 62, 76, 90, 104, 118, 132, 146, 160, 174, 188,
           87, 94, 101, 108, 3, 10, 17, 24, 31, 38, 45, 52, 0, 0, 0, 0])"
proof -
  have a: "ctr_initial_value (Counter_new HALF_BLOCK (take (HALF_BLOCK div 8)
      [3, 10, 17, 24, 31, 38, 45, 52, 59, 66, 73, 80, 87, 94, 101, 108])) \<noteq> 0"
    by (simp add: Counter_new_def)
  have b: "counter_block (Counter_new HALF_BLOCK (take (HALF_BLOCK div 8)
      [3, 10, 17, 24, 31, 38, 45, 52, 59, 66, 73, 80, 87, 94, 101, 108])) 0 =
     [3, 10, 17, 24, 31, 38, 45, 52] @ [0, 0, 0, 0, 0, 0, 0, 1]"
    by (simp add: Counter_new_def HALF_BLOCK_64 counter_block_def be_bytes_def upt_conv_Cons)
  from demo_randbytes a b probe_encrypt_zero show ?thesis by (intro conjI)
qed

subsection \<open>C9: the empty password\<close>

text \<open>
  Claim C9. With an empty password, \<open>encrypt\<close> on a plaintext that passes the length
  check (every \<^verbatim>\<open>bytes\<close> value: at most \<open>sys_maxsize\<close> bytes) and \<open>decrypt\<close> on an envelope that passes the length and prefix checks both
  reach \<open>expand_key\<close> and fail there with \<^verbatim>\<open>ValueError('Missing password')\<close>, the
  invalid-argument condition.
\<close>

theorem empty_password_invalid_argument:
  "(length data \<le> sys_maxsize \<longrightarrow>
      fst (encrypt L g [] data) = Inl (ValueError ''Missing password'')) \<and>
   (52 \<le> length env \<and> take 4 env = PREFIX \<longrightarrow>
      decrypt L [] env = Inl (ValueError ''Missing password''))"
proof (intro conjI impI)
  assume len: "length data \<le> sys_maxsize"
  obtain salt g' where s: "randbytes L (SALT_LEN div 8) g = (salt, g')"
    by (cases "randbytes L (SALT_LEN div 8) g")
  from encrypt_cases [OF len s] salt_nonempty [OF s]
  show "fst (encrypt L g [] data) = Inl (ValueError ''Missing password'')"
    by (simp add: expand_key_def)
next
  assume env: "52 \<le> length env \<and> take 4 env = PREFIX"
  then have a: "length PREFIX + SALT_LEN div 8 + HASH_digest_size \<le> length env"
    by (simp only: min_envelope)
  from env have b: "take (length PREFIX) env = PREFIX"
    by (simp add: length_PREFIX)
  from env have "take (SALT_LEN div 8) (drop (length PREFIX) env) \<noteq> []"
    by (auto simp: SALT_LEN_def length_PREFIX)
  with decrypt_cases [OF a b, of L "[]"]
  show "decrypt L [] env = Inl (ValueError ''Missing password'')"
    by (simp add: expand_key_def)
qed

theorem empty_password_invalid_argument_witness:
  "length [0x78 :: byte] \<le> sys_maxsize \<and>
   fst (encrypt demo_lib 0 [] [0x78]) = Inl (ValueError ''Missing password'') \<and>
   52 \<le> length (PREFIX @ replicate 48 (0 :: byte)) \<and>
   take 4 (PREFIX @ replicate 48 (0 :: byte)) = PREFIX \<and>
   decrypt demo_lib [] (PREFIX @ replicate 48 0) = Inl (ValueError ''Missing password'')"
  using empty_password_invalid_argument [of "[0x78]" demo_lib 0 "PREFIX @ replicate 48 0"]
  by (simp add: PREFIX_def sys_maxsize_def)

subsection \<open>C10: the length check of encrypt comes first\<close>




end
